theory Spec2Isabelle
  imports Complex_Main "HOL-Library.Word" "HOL-Library.Sublist"
begin

section \<open>Fixed-point EMA (check_match.py and crossover_strategy.py, \<open>ema_q16\<close>)\<close>

text \<open>
  \<open>main\<close> of check_match.py reads the prices with \<open>to_numpy(dtype=np.int64)\<close>, so the
  elements \<open>ema_q16\<close> iterates over are signed 64-bit integers: \<open>-\<close> and \<open>+\<close> wrap
  around and \<open>>>\<close> is the arithmetic right shift, which fills with the sign bit (and
  gives 0 or -1 once the shift count reaches the width). The shift count
  \<open>alpha_sh\<close> is a non-negative Python integer (the module constants are 1 and 6).
\<close>

type_synonym i64 = "64 word"

text \<open>The loop body's \<open>else\<close> branch: \<open>avg = avg + ((x - avg) >> alpha_sh)\<close>.\<close>

definition ema_update :: "nat \<Rightarrow> i64 \<Rightarrow> i64 \<Rightarrow> i64" where
  "ema_update alpha_sh avg x = avg + signed_drop_bit alpha_sh (x - avg)"

text \<open>
  The loop of \<open>ema_q16\<close>: the state \<open>avg\<close> is \<open>None\<close> before the first sample; each
  iteration appends the new \<open>avg\<close> to \<open>out\<close>.
\<close>

fun ema_loop :: "i64 option \<Rightarrow> i64 list \<Rightarrow> nat \<Rightarrow> i64 list" where
  "ema_loop avg [] alpha_sh = []"
| "ema_loop avg (x # xs) alpha_sh =
     (let avg' = (case avg of None \<Rightarrow> x | Some a \<Rightarrow> ema_update alpha_sh a x)
      in avg' # ema_loop (Some avg') xs alpha_sh)"

definition ema_q16 :: "i64 list \<Rightarrow> nat \<Rightarrow> i64 list" where
  "ema_q16 q16_prices alpha_sh = ema_loop None q16_prices alpha_sh"

section \<open>Signal classification and the software trace (check_match.py, \<open>main\<close>)\<close>

definition FAST_SH :: nat where "FAST_SH = 1"
definition SLOW_SH :: nat where "SLOW_SH = 6"

text \<open>
  The body of the loop over \<open>zip(fast, slow)\<close>: 1 is BUY, -1 is SELL, 0 is HOLD. The
  operands are int64 values, compared as signed numbers.
\<close>

definition classify :: "i64 \<Rightarrow> i64 \<Rightarrow> int" where
  "classify f s = (if sint f > sint s then 1 else if sint f < sint s then - 1 else 0)"

definition sw_signals :: "i64 list \<Rightarrow> i64 list \<Rightarrow> int list" where
  "sw_signals fast slow = map (\<lambda>(f, s). classify f s) (zip fast slow)"

text \<open>
  A data frame is the list of its rows, in row order. The frame \<open>sw\<close> has the columns
  \<open>tick = range(1, len(sw_sig) + 1)\<close> and \<open>sw_sig\<close>.
\<close>

definition sw_frame :: "int list \<Rightarrow> (nat \<times> int) list" where
  "sw_frame sw_sig = zip [1 ..< length sw_sig + 1] sw_sig"

definition software_trace :: "i64 list \<Rightarrow> nat \<Rightarrow> nat \<Rightarrow> (nat \<times> int) list" where
  "software_trace q16_prices fast_sh slow_sh =
     sw_frame (sw_signals (ema_q16 q16_prices fast_sh) (ema_q16 q16_prices slow_sh))"

section \<open>The hardware log (check_match.py, \<open>read_hw_log\<close>)\<close>

text \<open>
  A line is a list of characters with code points below 256. On these, \<open>\s\<close> matches
  the code points 9 to 13, 28 to 32, 133 and 160, and \<open>\d\<close> matches \<open>0\<close> to \<open>9\<close>.
  The two groups are runs of digits, so the tick and the signal code that \<open>int\<close>
  makes of them are natural numbers.
\<close>

definition is_space :: "char \<Rightarrow> bool" where
  "is_space c = (of_char c \<in> {9, 10, 11, 12, 13, 28, 29, 30, 31, 32, 133, 160 :: nat})"

definition is_digit :: "char \<Rightarrow> bool" where
  "is_digit c = (48 \<le> (of_char c :: nat) \<and> (of_char c :: nat) \<le> 57)"

fun strip_prefix :: "string \<Rightarrow> string \<Rightarrow> string option" where
  "strip_prefix [] s = Some s"
| "strip_prefix (p # ps) [] = None"
| "strip_prefix (p # ps) (c # cs) = (if p = c then strip_prefix ps cs else None)"

text \<open>\<open>int(...)\<close> on a non-empty run of decimal digits.\<close>

definition int_of_digits :: "string \<Rightarrow> nat" where
  "int_of_digits ds = foldl (\<lambda>n c. 10 * n + (of_char c - 48)) 0 ds"

text \<open>
  The pattern \<open>tick\s+(\d+)\s*->\s*signal=(\d+)\<close> tried at the start of a string. Each
  greedy run is followed by an item that cannot match a character of the run, so taking
  the longest run is the only way to match and no backtracking is needed. The result is
  the pair of the two groups as integers.
\<close>

definition match_here :: "string \<Rightarrow> (nat \<times> nat) option" where
  "match_here s =
     (case strip_prefix ''tick'' s of
        None \<Rightarrow> None
      | Some s1 \<Rightarrow>
          (if takeWhile is_space s1 = [] then None
           else
             (let s2 = dropWhile is_space s1; g1 = takeWhile is_digit s2 in
              if g1 = [] then None
              else
                (case strip_prefix ''->'' (dropWhile is_space (dropWhile is_digit s2)) of
                   None \<Rightarrow> None
                 | Some s3 \<Rightarrow>
                     (case strip_prefix ''signal='' (dropWhile is_space s3) of
                        None \<Rightarrow> None
                      | Some s4 \<Rightarrow>
                          (let g2 = takeWhile is_digit s4 in
                           if g2 = [] then None
                           else Some (int_of_digits g1, int_of_digits g2)))))))"

text \<open>\<open>re.search\<close>: the match at the leftmost position where the pattern matches.\<close>

fun re_search :: "string \<Rightarrow> (nat \<times> nat) option" where
  "re_search [] = match_here []"
| "re_search (c # cs) =
     (case match_here (c # cs) of Some m \<Rightarrow> Some m | None \<Rightarrow> re_search cs)"

text \<open>The remapping of the two-bit code: 3 to -1, 1 to 1, anything else to 0.\<close>

definition decode :: "nat \<Rightarrow> int" where
  "decode s = (if s = 3 then - 1 else if s = 1 then 1 else 0)"

text \<open>The loop over the lines of the file, appending to \<open>rows\<close>.\<close>

fun parse_rows :: "string list \<Rightarrow> (nat \<times> int) list" where
  "parse_rows [] = []"
| "parse_rows (line # rest) =
     (case re_search line of
        Some (t, s) \<Rightarrow> (t, decode s) # parse_rows rest
      | None \<Rightarrow> parse_rows rest)"

text \<open>
  \<open>DataFrame.drop_duplicates("tick")\<close> keeps, for each tick, the first row that has
  it, and keeps the rows in their order.
\<close>

fun drop_dups :: "nat list \<Rightarrow> (nat \<times> int) list \<Rightarrow> (nat \<times> int) list" where
  "drop_dups seen [] = []"
| "drop_dups seen ((t, s) # rows) =
     (if t \<in> set seen then drop_dups seen rows else (t, s) # drop_dups (t # seen) rows)"

definition drop_duplicates :: "(nat \<times> int) list \<Rightarrow> (nat \<times> int) list" where
  "drop_duplicates rows = drop_dups [] rows"

datatype error = FileNotFound

text \<open>The file is \<open>None\<close> when it cannot be opened, and its lines otherwise.\<close>

definition read_hw_log :: "string list option \<Rightarrow> error + (nat \<times> int) list" where
  "read_hw_log file =
     (case file of
        None \<Rightarrow> Inl FileNotFound
      | Some lines \<Rightarrow> Inr (drop_duplicates (parse_rows lines)))"

section \<open>Merging and comparing (check_match.py, \<open>main\<close>)\<close>

text \<open>
  \<open>pd.merge(hw, sw, on="tick", how="inner")\<close>: the rows whose tick is in both frames,
  in the order of the left frame's keys, each with the columns tick, hw_sig, sw_sig.
\<close>

definition merge :: "(nat \<times> int) list \<Rightarrow> (nat \<times> int) list \<Rightarrow> (nat \<times> int \<times> int) list" where
  "merge hw sw =
     concat (map (\<lambda>(t, h). map (\<lambda>(t', s). (t, h, s)) (filter (\<lambda>(t', s). t' = t) sw)) hw)"

text \<open>The column \<open>match\<close>: \<open>(hw_sig == sw_sig).astype(int)\<close>.\<close>

definition match_col :: "nat \<times> int \<times> int \<Rightarrow> nat" where
  "match_col r = (case r of (t, h, s) \<Rightarrow> if h = s then 1 else 0)"

text \<open>
  What \<open>main\<close> prints: the number of ticks compared, the match rate in percent (the
  mean of the match column times 100, kept here as an exact fraction), the mismatching
  rows (the first 10 are printed) and the first 12 rows.
\<close>

record report =
  compared :: nat
  acc :: rat
  mismatches :: "(nat \<times> int \<times> int) list"
  sample :: "(nat \<times> int \<times> int) list"

datatype outcome = Exit1 error | NoOverlap | Compared report

definition compare :: "(nat \<times> int) list \<Rightarrow> (nat \<times> int) list \<Rightarrow> outcome" where
  "compare hw sw =
     (let merged = merge hw sw in
      if length merged = 0 then NoOverlap
      else Compared
        \<lparr> compared = length merged,
          acc = of_nat (sum_list (map match_col merged)) / of_nat (length merged) * 100,
          mismatches = filter (\<lambda>r. match_col r = 0) merged,
          sample = take 12 merged \<rparr>)"

definition main :: "i64 list \<Rightarrow> string list option \<Rightarrow> outcome" where
  "main q16_prices file =
     (let sw = software_trace q16_prices FAST_SH SLOW_SH in
      case read_hw_log file of
        Inl e \<Rightarrow> Exit1 e
      | Inr hw \<Rightarrow> compare hw sw)"

section \<open>Properties of the EMA\<close>

lemma sint_asr_floor:
  "sint (signed_drop_bit n (d :: i64)) = sint d div 2 ^ n"
  by (simp add: sint_signed_drop_bit_eq drop_bit_eq_div)

lemma asr_as_floor:
  "signed_drop_bit n (d :: i64) = word_of_int (sint d div 2 ^ n)"
proof -
  have "signed_drop_bit n d = word_of_int (sint (signed_drop_bit n d))"
    by simp
  then show ?thesis
    by (simp only: sint_asr_floor)
qed

lemma floor_div_bounds:
  fixes d :: int
  shows "d div 2 ^ n * 2 ^ n \<le> d \<and> d < (d div 2 ^ n + 1) * 2 ^ n"
proof -
  define b :: int where "b = 2 ^ n"
  have b: "0 < b" by (simp add: b_def)
  have eq: "d = d div b * b + d mod b"
    by simp
  have "0 \<le> d mod b" and "d mod b < b"
    using b by simp_all
  with eq have "d div b * b \<le> d" and "d < d div b * b + b"
    by linarith+
  then show ?thesis
    by (simp add: b_def algebra_simps)
qed

lemma ema_loop_length: "length (ema_loop avg xs sh) = length xs"
  by (induction xs arbitrary: avg) (simp_all add: Let_def)

lemma ema_q16_length: "length (ema_q16 xs sh) = length xs"
  by (simp add: ema_q16_def ema_loop_length)

lemma ema_update_same: "ema_update sh c c = c"
  by (simp add: ema_update_def)

lemma ema_loop_const: "ema_loop (Some c) (replicate n c) sh = replicate n c"
  by (induction n) (simp_all add: ema_update_same)

text \<open>
  C1. The update shifts arithmetically: the shifted delta, read as a signed number, is
  the floor of \<open>delta / 2 ^ shift\<close> (\<open>div\<close> on \<open>int\<close> rounds toward minus infinity:
  the quotient \<open>q\<close> is the integer with \<open>q * 2 ^ shift \<le> delta < (q + 1) * 2 ^ shift\<close>,
  for negative deltas too), and the new average is \<open>avg\<close> plus that floor. Two
  samples show the whole function doing so. With shift 1, \<open>avg = 100 * 65536\<close> and \<open>x = 90 * 65536\<close> the shifted delta
  is \<open>-327680\<close>, not \<open>-327679\<close>; and an odd negative delta shows that the shift is not
  truncation toward zero: \<open>-1 >> 1\<close> is \<open>-1\<close>, where truncation gives 0.
\<close>

theorem ema_update_arithmetic_shift:
  "sint (signed_drop_bit sh (x - avg)) = sint (x - avg) div 2 ^ sh
   \<and> sint (signed_drop_bit sh (x - avg)) * 2 ^ sh \<le> sint (x - avg)
   \<and> sint (x - avg) < (sint (signed_drop_bit sh (x - avg)) + 1) * 2 ^ sh
   \<and> ema_update sh avg x = avg + word_of_int (sint (x - avg) div 2 ^ sh)
   \<and> ema_q16 [avg, x] sh = [avg, avg + word_of_int (sint (x - avg) div 2 ^ sh)]
   \<and> sint (signed_drop_bit 1 (90 * 65536 - 100 * 65536 :: i64)) = - 327680
   \<and> sint (signed_drop_bit 1 (90 * 65536 - 100 * 65536 :: i64)) \<noteq> - 327679
   \<and> ema_q16 [100 * 65536, 90 * 65536] 1 = [100 * 65536, 95 * 65536]
   \<and> sint (signed_drop_bit 1 (1 - 2 :: i64)) = - 1
   \<and> ema_q16 [2, 1] 1 = [2, 1]"
proof -
  have a: "sint (signed_drop_bit sh (x - avg)) = sint (x - avg) div 2 ^ sh"
    by (rule sint_asr_floor)
  have a': "sint (signed_drop_bit sh (x - avg)) * 2 ^ sh \<le> sint (x - avg)
      \<and> sint (x - avg) < (sint (signed_drop_bit sh (x - avg)) + 1) * 2 ^ sh"
    unfolding a by (rule floor_div_bounds)
  have b: "ema_update sh avg x = avg + word_of_int (sint (x - avg) div 2 ^ sh)"
    unfolding ema_update_def by (simp only: asr_as_floor)
  have c: "ema_q16 [avg, x] sh = [avg, avg + word_of_int (sint (x - avg) div 2 ^ sh)]"
    by (simp add: ema_q16_def b)
  have d: "sint (90 * 65536 - 100 * 65536 :: i64) = - 655360"
    by simp
  have e: "sint (signed_drop_bit 1 (90 * 65536 - 100 * 65536 :: i64)) = - 327680"
    by (simp only: sint_asr_floor d) simp
  have f: "ema_q16 [100 * 65536, 90 * 65536] 1 = [100 * 65536, 95 * 65536]"
    by (simp add: ema_q16_def ema_update_def asr_as_floor)
  have g: "sint (signed_drop_bit 1 (1 - 2 :: i64)) = - 1"
    by (simp add: sint_asr_floor)
  have h: "ema_q16 [2, 1] 1 = [2, 1]"
    by (simp add: ema_q16_def ema_update_def asr_as_floor)
  from a a' b c e f g h show ?thesis
    by simp
qed

text \<open>
  C3. On a constant input the average is the constant after the first sample and after
  every later one, for every shift: the output of \<open>ema_q16\<close> on \<open>n\<close> copies of \<open>c\<close>
  is \<open>n\<close> copies of \<open>c\<close>.
\<close>

theorem ema_q16_constant_input:
  "ema_q16 (replicate n c) sh = replicate n c"
proof (cases n)
  case 0
  then show ?thesis by (simp add: ema_q16_def)
next
  case (Suc m)
  then show ?thesis by (simp add: ema_q16_def ema_loop_const)
qed

section \<open>The signal classifier\<close>

text \<open>
  C4. The classifier compares the two averages exactly as signed integers: a larger
  fast average gives BUY (1), a smaller one SELL (-1), equal averages HOLD (0). Hence
  it is antisymmetric: \<open>classify a b = - classify b a\<close> for \<open>a \<noteq> b\<close>, and
  \<open>classify c c\<close> is HOLD for every \<open>c\<close>.
\<close>

theorem classify_exact_antisymmetric:
  "(sint f1 > sint s1 \<longrightarrow> classify f1 s1 = 1)
   \<and> (sint f2 < sint s2 \<longrightarrow> classify f2 s2 = - 1)
   \<and> (f3 = s3 \<longrightarrow> classify f3 s3 = 0)
   \<and> (a \<noteq> b \<longrightarrow> classify a b = - classify b a)
   \<and> classify c c = 0"
  by (simp add: classify_def)

theorem classify_exact_antisymmetric_witness:
  "sint (2 :: i64) > sint (1 :: i64) \<and> classify 2 1 = 1
   \<and> sint (- 1 :: i64) < sint (1 :: i64) \<and> classify (- 1) 1 = - 1
   \<and> classify 5 5 = 0
   \<and> (2 :: i64) \<noteq> 1 \<and> classify 2 1 = - classify 1 2"
  using classify_exact_antisymmetric
    [where ?f1.0 = 2 and ?s1.0 = 1 and ?f2.0 = "- 1" and ?s2.0 = 1 and ?f3.0 = 5 and ?s3.0 = 5
       and a = 2 and b = 1 and c = 5]
  by simp

section \<open>The software trace\<close>

lemma sw_signals_length:
  "length fast = length slow \<Longrightarrow> length (sw_signals fast slow) = length fast"
  by (simp add: sw_signals_def)

lemma sw_frame_ticks: "map fst (sw_frame sigs) = [1 ..< length sigs + 1]"
  by (simp add: sw_frame_def)

lemma software_trace_ticks:
  "map fst (software_trace prices fs ss) = [1 ..< length prices + 1]"
  by (simp add: software_trace_def sw_frame_ticks sw_signals_length ema_q16_length)

text \<open>
  C5. For a price sequence of length N the software trace has exactly N rows and its
  tick column is 1, 2, ..., N in this order: no tick is skipped and none is added.
\<close>

theorem software_trace_dense:
  "length (software_trace prices fs ss) = length prices
   \<and> map fst (software_trace prices fs ss) = [1 ..< length prices + 1]
   \<and> fst ` set (software_trace prices fs ss) = {1 .. length prices}"
proof -
  have m: "map fst (software_trace prices fs ss) = [1 ..< length prices + 1]"
    by (rule software_trace_ticks)
  have l: "length (software_trace prices fs ss) = length prices"
    by (simp add: software_trace_def sw_frame_def sw_signals_def ema_q16_length del: upt_Suc)
  have "set (map fst (software_trace prices fs ss)) = {1 .. length prices}"
    by (simp only: m) auto
  then have s: "fst ` set (software_trace prices fs ss) = {1 .. length prices}"
    by simp
  from l m s show ?thesis by simp
qed

section \<open>The comparison\<close>

text \<open>
  C2. For the hardware trace \<open>{1: +1, 2: -1, 3: 0}\<close> and the software trace
  \<open>{2: -1, 3: +1, 4: 0}\<close> the merged frame has exactly the ticks 2 and 3, the match
  column is 1 at tick 2 and 0 at tick 3, and the report has 2 ticks compared, a match
  rate of 50 percent and the single mismatch (3, HOLD, BUY).
\<close>

theorem compare_example:
  "merge [(1, 1), (2, - 1), (3, 0)] [(2, - 1), (3, 1), (4, 0)] = [(2, - 1, - 1), (3, 0, 1)]
   \<and> map match_col (merge [(1, 1), (2, - 1), (3, 0)] [(2, - 1), (3, 1), (4, 0)]) = [1, 0]
   \<and> compare [(1, 1), (2, - 1), (3, 0)] [(2, - 1), (3, 1), (4, 0)] =
       Compared \<lparr> compared = 2, acc = 50, mismatches = [(3, 0, 1)],
                  sample = [(2, - 1, - 1), (3, 0, 1)] \<rparr>"
  by (simp add: compare_def merge_def match_col_def)

section \<open>Empty inputs\<close>

lemma software_trace_empty: "software_trace [] fs ss = []"
  by (simp add: software_trace_def sw_frame_def sw_signals_def ema_q16_def)

lemma merge_empty_right: "merge hw [] = []"
  by (simp add: merge_def)

lemma merge_empty_left: "merge [] sw = []"
  by (simp add: merge_def)

text \<open>
  C7, as stated, fails: on the empty price sequence the software trace is computed and is
  empty, and \<open>main\<close> goes on to the merge and reports that no ticks overlap, the same
  outcome as for a price sequence whose ticks the hardware log does not mention.
\<close>

theorem empty_input_counterexample:
  "software_trace [] FAST_SH SLOW_SH = []
   \<and> main [] (Some [''tick 1 -> signal=1'']) = NoOverlap
   \<and> main [65536] (Some [''tick 2 -> signal=1'']) = NoOverlap"
  by code_simp

text \<open>
  C7, amended. On the empty price sequence the software trace is the empty trace, and
  \<open>main\<close> ends with the no-overlap report whenever the hardware log can be read (and
  with exit status 1 when it cannot); there is no separate empty-input condition.
\<close>

theorem empty_input_no_overlap:
  "software_trace [] fs ss = []
   \<and> main [] (Some lines) = NoOverlap
   \<and> main [] None = Exit1 FileNotFound"
  by (simp add: main_def software_trace_empty read_hw_log_def compare_def merge_empty_right)

lemma parse_rows_no_match:
  "\<forall>l\<in>set lines. re_search l = None \<Longrightarrow> parse_rows lines = []"
  by (induction lines) simp_all

text \<open>
  C8, as stated, fails: a log of one line that does not match the pattern is parsed to
  the empty trace without any report, and \<open>main\<close> then ends with the no-overlap
  report, the same outcome as for a log whose only tick is beyond the prices.
\<close>

theorem empty_log_counterexample:
  "read_hw_log (Some [''simulation started'']) = Inr []
   \<and> main [65536] (Some [''simulation started'']) = NoOverlap
   \<and> main [65536] (Some [''tick 2 -> signal=1'']) = NoOverlap"
  by code_simp

text \<open>
  C8, amended. When no line of the log matches the pattern, \<open>read_hw_log\<close> returns the
  empty trace, and \<open>main\<close> ends with the no-overlap report, which is the only report
  of this condition.
\<close>

theorem empty_log_no_overlap:
  "\<forall>l\<in>set lines. re_search l = None \<Longrightarrow>
     read_hw_log (Some lines) = Inr [] \<and> main prices (Some lines) = NoOverlap"
  by (simp add: main_def read_hw_log_def parse_rows_no_match drop_duplicates_def compare_def
      merge_empty_left)

theorem empty_log_no_overlap_witness:
  "list_all (\<lambda>l. re_search l = None) [''simulation started'', ''tick -> signal=1'']
   \<and> read_hw_log (Some [''simulation started'', ''tick -> signal=1'']) = Inr []
   \<and> main [65536, 131072] (Some [''simulation started'', ''tick -> signal=1'']) = NoOverlap"
proof -
  have h: "\<forall>l\<in>set [''simulation started'', ''tick -> signal=1'']. re_search l = None"
    by (simp add: match_here_def is_space_def is_digit_def)
  from h empty_log_no_overlap [OF h, of "[65536, 131072]"] show ?thesis
    by (simp add: list_all_iff del: re_search.simps)
qed

section \<open>The order of the merged rows\<close>

lemma filter_tick_distinct:
  "distinct (map fst sw) \<Longrightarrow>
     length (filter (\<lambda>(t', s). t' = t) sw) = (if t \<in> fst ` set sw then 1 else 0)"
proof (induction sw)
  case Nil
  then show ?case by simp
next
  case (Cons r sw)
  obtain t' s where r: "r = (t', s)" by (cases r)
  from Cons show ?case
    by (auto simp: r)
qed

lemma merge_Cons:
  "merge ((t, h) # hw) sw =
     map (\<lambda>(t', s). (t, h, s)) (filter (\<lambda>(t', s). t' = t) sw) @ merge hw sw"
  by (simp add: merge_def)

lemma map_fst_joined:
  "map fst (map (\<lambda>(t', s). (t, h, s)) rows) = replicate (length rows) t"
  by (induction rows) auto

lemma merge_ticks:
  assumes "distinct (map fst sw)"
  shows "map fst (merge hw sw) = filter (\<lambda>t. t \<in> fst ` set sw) (map fst hw)"
proof (induction hw)
  case Nil
  show ?case by (simp add: merge_def)
next
  case (Cons r hw)
  obtain t h where r: "r = (t, h)" by (cases r)
  let ?rows = "filter (\<lambda>(t', s). t' = t) sw"
  have "map fst (map (\<lambda>(t', s). (t, h, s)) ?rows) =
          replicate (if t \<in> fst ` set sw then 1 else 0) t"
    by (simp only: map_fst_joined filter_tick_distinct [OF assms])
  then have "map fst (merge ((t, h) # hw) sw) =
          replicate (if t \<in> fst ` set sw then 1 else 0) t
          @ filter (\<lambda>t. t \<in> fst ` set sw) (map fst hw)"
    by (simp only: merge_Cons map_append Cons.IH)
  then show ?case
    by (simp add: r)
qed

lemma software_trace_distinct: "distinct (map fst (software_trace prices fs ss))"
  by (simp only: software_trace_ticks distinct_upt)

lemma mismatch_ticks_subseq:
  assumes "distinct (map fst sw)"
  shows "subseq (map fst (filter P (merge hw sw))) (map fst hw)"
proof -
  have "subseq (map fst (filter P (merge hw sw))) (map fst (merge hw sw))"
    by (rule subseq_map) simp
  moreover have "subseq (map fst (merge hw sw)) (map fst hw)"
    by (simp add: merge_ticks [OF assms])
  ultimately show ?thesis
    by (rule subseq_order.trans)
qed

lemma mismatch_ticks_sorted:
  assumes "distinct (map fst sw)" and "sorted_wrt (<) (map fst hw)"
  shows "sorted_wrt (<) (map fst (filter P (merge hw sw)))"
proof -
  have "sorted_wrt (<) (map fst (merge hw sw))"
    using assms(2) by (simp add: merge_ticks [OF assms(1)] sorted_wrt_filter)
  then have "sorted_wrt (\<lambda>x y. fst x < fst y) (merge hw sw)"
    by (simp add: sorted_wrt_map)
  then have "sorted_wrt (\<lambda>x y. fst x < fst y) (filter P (merge hw sw))"
    by (rule sorted_wrt_filter)
  then show ?thesis
    by (simp add: sorted_wrt_map)
qed

lemma compare_mismatches:
  "compare hw sw = Compared r \<Longrightarrow>
     mismatches r = filter (\<lambda>r. match_col r = 0) (merge hw sw)"
  by (auto simp: compare_def Let_def split: if_splits)

lemma main_Compared:
  "read_hw_log file = Inr hw \<Longrightarrow> main prices file = Compared r \<Longrightarrow>
     compare hw (software_trace prices FAST_SH SLOW_SH) = Compared r"
  by (simp add: main_def)

text \<open>
  C9, as stated, fails: nothing sorts the merged frame, so a log that reports tick 3
  before tick 2 gives the mismatch records in the order 3, 2.
\<close>

theorem mismatches_unsorted_counterexample:
  "main [65536, 65536, 65536] (Some [''tick 3 -> signal=1'', ''tick 2 -> signal=1'']) =
     Compared \<lparr> compared = 2, acc = 0, mismatches = [(3, 1, 0), (2, 1, 0)],
                sample = [(3, 1, 0), (2, 1, 0)] \<rparr>
   \<and> \<not> sorted_wrt (<) (map fst [(3 :: nat, 1 :: int, 0 :: int), (2, 1, 0)])"
  by code_simp

text \<open>
  C9, amended. The ticks of the mismatch records, in their order, are a subsequence of
  the ticks of the hardware trace, which is the order of their first occurrence in the
  log. So the records are in strictly ascending tick order whenever the ticks of the
  hardware trace are.
\<close>

theorem mismatches_in_log_order:
  assumes "read_hw_log file = Inr hw" and "main prices file = Compared r"
  shows "subseq (map fst (mismatches r)) (map fst hw)
         \<and> (sorted_wrt (<) (map fst hw) \<longrightarrow> sorted_wrt (<) (map fst (mismatches r)))"
proof -
  let ?sw = "software_trace prices FAST_SH SLOW_SH"
  have d: "distinct (map fst ?sw)"
    by (rule software_trace_distinct)
  have m: "mismatches r = filter (\<lambda>r. match_col r = 0) (merge hw ?sw)"
    by (rule compare_mismatches [OF main_Compared [OF assms]])
  show ?thesis
    unfolding m
    using mismatch_ticks_subseq [OF d] mismatch_ticks_sorted [OF d] by blast
qed

theorem mismatches_in_log_order_witness:
  "read_hw_log (Some [''tick 1 -> signal=1'', ''tick 2 -> signal=0'', ''tick 3 -> signal=3'']) =
     Inr [(1, 1), (2, 0), (3, - 1)]
   \<and> main [65536, 65536, 65536]
        (Some [''tick 1 -> signal=1'', ''tick 2 -> signal=0'', ''tick 3 -> signal=3'']) =
      Compared \<lparr> compared = 3, acc = 100 / 3, mismatches = [(1, 1, 0), (3, - 1, 0)],
                 sample = [(1, 1, 0), (2, 0, 0), (3, - 1, 0)] \<rparr>
   \<and> subseq (map fst [(1 :: nat, 1 :: int, 0 :: int), (3, - 1, 0)])
        (map fst [(1 :: nat, 1 :: int), (2, 0), (3, - 1)])
   \<and> sorted_wrt (<) (map fst [(1 :: nat, 1 :: int), (2, 0), (3, - 1)])
   \<and> sorted_wrt (<) (map fst [(1 :: nat, 1 :: int, 0 :: int), (3, - 1, 0)])"
proof -
  let ?file = "Some [''tick 1 -> signal=1'', ''tick 2 -> signal=0'', ''tick 3 -> signal=3'']"
  let ?r = "\<lparr> compared = 3, acc = 100 / 3, mismatches = [(1, 1, 0), (3, - 1, 0)],
                 sample = [(1, 1, 0), (2, 0, 0), (3, - 1, 0)] \<rparr>"
  have h: "read_hw_log ?file = Inr [(1, 1), (2, 0), (3, - 1)]"
    by code_simp
  have m: "main [65536, 65536, 65536] ?file = Compared ?r"
    by code_simp
  from h m mismatches_in_log_order [OF h m] show ?thesis
    by simp
qed

section \<open>The hardware log parser\<close>

lemma drop_dups_filter:
  "filter (\<lambda>r. fst r = t) (drop_dups seen rows) =
     (if t \<in> set seen then [] else take 1 (filter (\<lambda>r. fst r = t) rows))"
proof (induction seen rows rule: drop_dups.induct)
  case (1 seen)
  show ?case by simp
next
  case (2 seen t' s rows)
  then show ?case by auto
qed

lemma drop_dups_ticks:
  "set (map fst (drop_dups seen rows)) \<inter> set seen = {} \<and> distinct (map fst (drop_dups seen rows))"
proof (induction seen rows rule: drop_dups.induct)
  case (1 seen)
  show ?case by simp
next
  case (2 seen t' s rows)
  then show ?case by auto
qed

lemma drop_duplicates_distinct: "distinct (map fst (drop_duplicates rows))"
  by (simp add: drop_duplicates_def drop_dups_ticks)

lemma drop_duplicates_first:
  "filter (\<lambda>r. fst r = t) (drop_duplicates rows) = take 1 (filter (\<lambda>r. fst r = t) rows)"
  by (simp add: drop_duplicates_def drop_dups_filter)

lemma parse_rows_append: "parse_rows (xs @ ys) = parse_rows xs @ parse_rows ys"
  by (induction xs) (simp_all split: option.splits)

lemma parse_rows_other_tick:
  "\<forall>l\<in>set pre. \<forall>c. re_search l \<noteq> Some (t, c) \<Longrightarrow>
     filter (\<lambda>r. fst r = t) (parse_rows pre) = []"
  by (induction pre) (auto split: option.splits)

text \<open>
  C6. When two lines of the log match the pattern with the same tick number, the first
  of them being the first line of the log for that tick, the trace has exactly one row
  for that tick, and it carries the decoded code of the first line, whatever the code of
  the second; the ticks of the trace are pairwise distinct. The code 1 decodes to BUY
  (1), the code 3 to SELL (-1) and every other code to HOLD (0).
\<close>

theorem read_hw_log_first_occurrence_wins:
  assumes "re_search l1 = Some (t, c1)" and "re_search l2 = Some (t, c2)"
    and "\<forall>l\<in>set pre. \<forall>c. re_search l \<noteq> Some (t, c)"
  shows "(\<exists>hw. read_hw_log (Some (pre @ l1 # mid @ l2 # post)) = Inr hw
           \<and> filter (\<lambda>r. fst r = t) hw = [(t, decode c1)]
           \<and> distinct (map fst hw))
         \<and> decode 1 = 1 \<and> decode 3 = - 1 \<and> (c \<noteq> 1 \<and> c \<noteq> 3 \<longrightarrow> decode c = 0)"
proof -
  let ?lines = "pre @ l1 # mid @ l2 # post"
  have "parse_rows ?lines = parse_rows pre @ (t, decode c1) # parse_rows (mid @ l2 # post)"
    using assms(1) by (simp add: parse_rows_append)
  then have "filter (\<lambda>r. fst r = t) (parse_rows ?lines) =
      (t, decode c1) # filter (\<lambda>r. fst r = t) (parse_rows (mid @ l2 # post))"
    by (simp add: parse_rows_other_tick [OF assms(3)])
  then have "filter (\<lambda>r. fst r = t) (drop_duplicates (parse_rows ?lines)) = [(t, decode c1)]"
    by (simp add: drop_duplicates_first)
  then have "\<exists>hw. read_hw_log (Some ?lines) = Inr hw
           \<and> filter (\<lambda>r. fst r = t) hw = [(t, decode c1)]
           \<and> distinct (map fst hw)"
    by (simp add: read_hw_log_def drop_duplicates_distinct)
  moreover have "decode 1 = 1 \<and> decode 3 = - 1 \<and> (c \<noteq> 1 \<and> c \<noteq> 3 \<longrightarrow> decode c = 0)"
    by (simp add: decode_def)
  ultimately show ?thesis
    by simp
qed

theorem read_hw_log_first_occurrence_wins_witness:
  "re_search ''tick 5 -> signal=1  fast=6553600 slow=6553600'' = Some (5, 1)
   \<and> re_search ''tick 5 -> signal=3'' = Some (5, 3)
   \<and> re_search ''VCD info: dumpfile opened'' = None
   \<and> read_hw_log (Some ([''VCD info: dumpfile opened'']
        @ ''tick 5 -> signal=1  fast=6553600 slow=6553600''
        # [''tick 6 -> signal=2''] @ ''tick 5 -> signal=3'' # [])) = Inr [(5, 1), (6, 0)]
   \<and> (\<exists>hw. read_hw_log (Some ([''VCD info: dumpfile opened'']
        @ ''tick 5 -> signal=1  fast=6553600 slow=6553600''
        # [''tick 6 -> signal=2''] @ ''tick 5 -> signal=3'' # [])) = Inr hw
        \<and> filter (\<lambda>r. fst r = 5) hw = [(5, decode 1)] \<and> distinct (map fst hw))
   \<and> (2 :: nat) \<noteq> 1 \<and> (2 :: nat) \<noteq> 3 \<and> decode 2 = 0"
proof -
  have h1: "re_search ''tick 5 -> signal=1  fast=6553600 slow=6553600'' = Some (5, 1)"
    by code_simp
  have h2: "re_search ''tick 5 -> signal=3'' = Some (5, 3)"
    by code_simp
  have n: "re_search ''VCD info: dumpfile opened'' = None"
    by code_simp
  have h3: "\<forall>l\<in>set [''VCD info: dumpfile opened'']. \<forall>c. re_search l \<noteq> Some (5, c)"
    using n by (simp del: re_search.simps)
  have e: "read_hw_log (Some ([''VCD info: dumpfile opened'']
        @ ''tick 5 -> signal=1  fast=6553600 slow=6553600''
        # [''tick 6 -> signal=2''] @ ''tick 5 -> signal=3'' # [])) = Inr [(5, 1), (6, 0)]"
    by code_simp
  from h1 h2 n e
    read_hw_log_first_occurrence_wins [OF h1 h2 h3, of "[''tick 6 -> signal=2'']" "[]" 2]
  show ?thesis
    by simp
qed

section \<open>The envelope of the EMA\<close>

lemma floor_shift_between:
  fixes d :: int
  shows "min 0 d \<le> d div 2 ^ n \<and> d div 2 ^ n \<le> max 0 d"
proof -
  define b :: int where "b = 2 ^ n"
  define q where "q = d div b"
  have b: "1 \<le> b" by (simp add: b_def)
  have eq: "d = b * q + d mod b"
    by (simp add: q_def)
  have "0 \<le> d mod b" and "d mod b < b"
    using b by simp_all
  with eq have lo: "b * q \<le> d" and hi: "d < b * q + b"
    by linarith+
  show ?thesis
  proof (cases "0 \<le> d")
    case True
    then have q0: "0 \<le> q"
      unfolding q_def using b by (simp add: pos_imp_zdiv_nonneg_iff)
    then have "1 * q \<le> b * q"
      using b by (intro mult_right_mono) simp_all
    with lo True q0 show ?thesis
      by (simp add: q_def b_def)
  next
    case False
    then have q0: "q < 0"
      unfolding q_def using b by (simp add: pos_imp_zdiv_neg_iff)
    then have "b * (q + 1) \<le> 1 * (q + 1)"
      using b by (intro mult_right_mono_neg) simp_all
    with hi have "d \<le> q"
      by (simp add: algebra_simps)
    with False q0 show ?thesis
      by (simp add: q_def b_def)
  qed
qed

lemma sint_sub_exact:
  fixes a x :: i64
  assumes "- (2 ^ 63) \<le> sint x - sint a" and "sint x - sint a < 2 ^ 63"
  shows "sint (x - a) = sint x - sint a"
  using assms by (simp add: sint_word_ariths signed_take_bit_int_eq_self)

lemma sint_add_exact:
  fixes a b :: i64
  assumes "- (2 ^ 63) \<le> sint a + sint b" and "sint a + sint b < 2 ^ 63"
  shows "sint (a + b) = sint a + sint b"
  using assms by (simp add: sint_word_ariths signed_take_bit_int_eq_self)

lemma sint_i64_range: "- (2 ^ 63) \<le> sint (w :: i64) \<and> sint w < 2 ^ 63"
  using sint_ge [of w] sint_lt [of w] by simp

lemma ema_update_between:
  fixes a x :: i64
  assumes "- (2 ^ 63) < sint x - sint a" and "sint x - sint a < 2 ^ 63"
  shows "min (sint a) (sint x) \<le> sint (ema_update sh a x)
         \<and> sint (ema_update sh a x) \<le> max (sint a) (sint x)"
proof -
  define q where "q = (sint x - sint a) div 2 ^ sh"
  have d: "sint (x - a) = sint x - sint a"
    using assms by (intro sint_sub_exact) simp_all
  have s: "sint (signed_drop_bit sh (x - a)) = q"
    by (simp only: sint_asr_floor d q_def)
  have q: "min 0 (sint x - sint a) \<le> q \<and> q \<le> max 0 (sint x - sint a)"
    unfolding q_def by (rule floor_shift_between)
  then have between: "min (sint a) (sint x) \<le> sint a + q \<and> sint a + q \<le> max (sint a) (sint x)"
    by auto
  have "- (2 ^ 63) \<le> sint a + q \<and> sint a + q < 2 ^ 63"
    using between sint_i64_range [of a] sint_i64_range [of x] by auto
  then have "sint (a + signed_drop_bit sh (x - a)) = sint a + q"
    using s by (intro sint_add_exact [THEN trans]) simp_all
  with between show ?thesis
    by (simp add: ema_update_def)
qed

lemma ema_loop_bounds:
  assumes "hi - lo < 2 ^ 63"
  shows "\<forall>x\<in>set xs. lo \<le> sint x \<and> sint x \<le> hi \<Longrightarrow> lo \<le> sint a \<and> sint a \<le> hi \<Longrightarrow>
         \<forall>y\<in>set (ema_loop (Some a) xs sh). lo \<le> sint y \<and> sint y \<le> hi"
proof (induction xs arbitrary: a)
  case Nil
  show ?case by simp
next
  case (Cons x xs)
  have x: "lo \<le> sint x \<and> sint x \<le> hi"
    using Cons.prems(1) by simp
  have "- (2 ^ 63) < sint x - sint a" and "sint x - sint a < 2 ^ 63"
    using x Cons.prems(2) assms by linarith+
  then have "min (sint a) (sint x) \<le> sint (ema_update sh a x)
         \<and> sint (ema_update sh a x) \<le> max (sint a) (sint x)"
    by (rule ema_update_between)
  then have u: "lo \<le> sint (ema_update sh a x) \<and> sint (ema_update sh a x) \<le> hi"
    using x Cons.prems(2) by auto
  have "\<forall>y\<in>set (ema_loop (Some (ema_update sh a x)) xs sh). lo \<le> sint y \<and> sint y \<le> hi"
    using Cons.prems(1) u by (intro Cons.IH) simp_all
  with u show ?case
    by (simp add: Let_def)
qed

lemma ema_q16_bounds:
  assumes "hi - lo < 2 ^ 63" and "\<forall>x\<in>set xs. lo \<le> sint x \<and> sint x \<le> hi"
  shows "\<forall>y\<in>set (ema_q16 xs sh). lo \<le> sint y \<and> sint y \<le> hi"
proof (cases xs)
  case Nil
  then show ?thesis by (simp add: ema_q16_def)
next
  case (Cons x xs')
  have x: "lo \<le> sint x \<and> sint x \<le> hi"
    using assms(2) Cons by simp
  have "\<forall>y\<in>set (ema_loop (Some x) xs' sh). lo \<le> sint y \<and> sint y \<le> hi"
    using assms Cons x by (intro ema_loop_bounds) simp_all
  with x show ?thesis
    by (simp add: ema_q16_def Cons Let_def)
qed

lemma ema_loop_take: "take k (ema_loop avg xs sh) = ema_loop avg (take k xs) sh"
proof (induction xs arbitrary: avg k)
  case Nil
  show ?case by simp
next
  case (Cons x xs)
  show ?case
    by (cases k) (simp_all add: Let_def Cons.IH)
qed

lemma ema_q16_take: "take k (ema_q16 xs sh) = ema_q16 (take k xs) sh"
  by (simp add: ema_q16_def ema_loop_take)

lemma ema_q16_nth_prefix:
  assumes "i < length xs"
  shows "ema_q16 xs sh ! i \<in> set (ema_q16 (take (Suc i) xs) sh)"
proof -
  have "ema_q16 xs sh ! i = take (Suc i) (ema_q16 xs sh) ! i"
    by simp
  also have "\<dots> = ema_q16 (take (Suc i) xs) sh ! i"
    by (simp only: ema_q16_take)
  also have "\<dots> \<in> set (ema_q16 (take (Suc i) xs) sh)"
    using assms by (intro nth_mem) (simp add: ema_q16_length)
  finally show ?thesis .
qed

text \<open>
  C10, as stated, fails: the subtraction \<open>x - avg\<close> wraps around when the two int64
  values are more than \<open>2 ^ 63 - 1\<close> apart. After the prices \<open>- 2 ^ 62\<close> and
  \<open>2 ^ 63 - 1\<close> the average with shift 1 is below both of them.
\<close>

theorem ema_q16_envelope_counterexample:
  "sint (ema_q16 [- 4611686018427387904, 9223372036854775807] 1 ! 1) = - 6917529027641081857
   \<and> Min (sint ` set [- 4611686018427387904, 9223372036854775807 :: i64]) = - 4611686018427387904
   \<and> \<not> Min (sint ` set [- 4611686018427387904, 9223372036854775807 :: i64])
         \<le> sint (ema_q16 [- 4611686018427387904, 9223372036854775807] 1 ! 1)"
  by (simp add: ema_q16_def ema_update_def sint_asr_floor)

text \<open>
  C10, amended. When any two input prices differ by less than \<open>2 ^ 63\<close>, so that no
  subtraction \<open>x - avg\<close> can wrap around, every running average lies between the
  minimum and the maximum of the prices processed so far, for every shift.
\<close>

theorem ema_q16_envelope:
  assumes "\<forall>x\<in>set prices. \<forall>y\<in>set prices. sint x - sint y < 2 ^ 63"
    and "i < length prices"
  shows "Min (sint ` set (take (Suc i) prices)) \<le> sint (ema_q16 prices sh ! i)
         \<and> sint (ema_q16 prices sh ! i) \<le> Max (sint ` set (take (Suc i) prices))"
proof -
  let ?seen = "take (Suc i) prices"
  let ?S = "sint ` set ?seen"
  have ne: "?S \<noteq> {}" and fin: "finite ?S"
    using assms(2) by auto
  have sub: "set ?seen \<subseteq> set prices"
    by (rule set_take_subset)
  obtain x where x: "x \<in> set ?seen" "Max ?S = sint x"
    using Max_in [OF fin ne] by auto
  obtain y where y: "y \<in> set ?seen" "Min ?S = sint y"
    using Min_in [OF fin ne] by auto
  have w: "Max ?S - Min ?S < 2 ^ 63"
    using assms(1) x y sub by auto
  have "\<forall>z\<in>set ?seen. Min ?S \<le> sint z \<and> sint z \<le> Max ?S"
    using fin by auto
  then have "\<forall>z\<in>set (ema_q16 ?seen sh). Min ?S \<le> sint z \<and> sint z \<le> Max ?S"
    by (rule ema_q16_bounds [OF w])
  with ema_q16_nth_prefix [OF assms(2)] show ?thesis
    by blast
qed

theorem ema_q16_envelope_witness:
  "list_all (\<lambda>x. list_all (\<lambda>y. sint x - sint y < 2 ^ 63) [6553600, 5898240, 7208960 :: i64])
      [6553600, 5898240, 7208960 :: i64]
   \<and> (1 :: nat) < length [6553600, 5898240, 7208960 :: i64]
   \<and> ema_q16 [6553600, 5898240, 7208960] 1 ! 1 = 6225920
   \<and> Min (sint ` set (take (Suc 1) [6553600, 5898240, 7208960 :: i64]))
        \<le> sint (ema_q16 [6553600, 5898240, 7208960] 1 ! 1)
   \<and> sint (ema_q16 [6553600, 5898240, 7208960] 1 ! 1)
        \<le> Max (sint ` set (take (Suc 1) [6553600, 5898240, 7208960 :: i64]))"
proof -
  have h1: "\<forall>x\<in>set [6553600, 5898240, 7208960 :: i64].
      \<forall>y\<in>set [6553600, 5898240, 7208960 :: i64]. sint x - sint y < 2 ^ 63"
    by simp
  have h2: "(1 :: nat) < length [6553600, 5898240, 7208960 :: i64]"
    by simp
  have e: "ema_q16 [6553600, 5898240, 7208960] 1 ! 1 = 6225920"
    by (simp add: ema_q16_def ema_update_def asr_as_floor)
  from h1 h2 e ema_q16_envelope [OF h1 h2, of 1] show ?thesis
    by simp
qed

end
